theory Spec2Isabelle
  imports Complex_Main "HOL-Library.Log_Nat" "HOL-Library.Finite_Map"
begin

section \<open>JavaScript values\<close>

subsection \<open>Numbers\<close>

text \<open>
  Every JavaScript number is an IEEE 754 double. The numbers of this program are counts
  (array lengths, numbers of keys, a quiz score) and quotients and products of counts, so
  they are never negative: \<open>jsnum\<close> holds the non-negative finite values as rationals,
  \<open>Infinity\<close> and \<open>NaN\<close>.

  \<open>fl\<close> rounds a non-negative rational to the nearest number with a 53-bit significand,
  ties to even, which is the IEEE rounding of a result whose magnitude stays inside the
  exponent range of a double (all results here do: they are between \<open>2 powi (-53)\<close> and
  \<open>100 * 2 ^ 53\<close> when the counts are below \<open>2 ^ 53\<close>).
\<close>

datatype jsnum = Num rat | Infinity | NaN

definition rne :: "rat \<Rightarrow> int" where
  "rne x = (let f = \<lfloor>x\<rfloor>; d = x - of_int f
            in if d < 1/2 then f else if 1/2 < d then f + 1 else if even f then f else f + 1)"

definition ilog2 :: "rat \<Rightarrow> int" where
  "ilog2 x = (if 1 \<le> x then bitlen \<lfloor>x\<rfloor> - 1 else - bitlen (\<lceil>1 / x\<rceil> - 1))"

definition fl :: "rat \<Rightarrow> rat" where
  "fl x = (if x \<le> 0 then 0
           else let e = ilog2 x in of_int (rne (x * 2 powi (52 - e))) * 2 powi (e - 52))"

fun js_add :: "jsnum \<Rightarrow> jsnum \<Rightarrow> jsnum" where
  "js_add (Num x) (Num y) = Num (fl (x + y))"
| "js_add NaN _ = NaN"
| "js_add _ NaN = NaN"
| "js_add _ _ = Infinity"

fun js_div :: "jsnum \<Rightarrow> jsnum \<Rightarrow> jsnum" where
  "js_div (Num x) (Num y) =
     (if y = 0 then (if x = 0 then NaN else Infinity) else Num (fl (x / y)))"
| "js_div (Num x) Infinity = Num 0"
| "js_div Infinity (Num y) = Infinity"
| "js_div _ _ = NaN"

fun js_mul :: "jsnum \<Rightarrow> jsnum \<Rightarrow> jsnum" where
  "js_mul (Num x) (Num y) = Num (fl (x * y))"
| "js_mul (Num x) Infinity = (if x = 0 then NaN else Infinity)"
| "js_mul Infinity (Num y) = (if y = 0 then NaN else Infinity)"
| "js_mul Infinity Infinity = Infinity"
| "js_mul _ _ = NaN"

text \<open>\<^verbatim>\<open>x >= y\<close>: false as soon as one side is \<open>NaN\<close>.\<close>

fun js_ge :: "jsnum \<Rightarrow> jsnum \<Rightarrow> bool" where
  "js_ge (Num x) (Num y) = (y \<le> x)"
| "js_ge Infinity (Num y) = True"
| "js_ge Infinity Infinity = True"
| "js_ge _ _ = False"

text \<open>\<^verbatim>\<open>Math.round\<close>: the nearest integer, a tie going up; \<open>Infinity\<close> and \<open>NaN\<close> are kept.\<close>

fun Math_round :: "jsnum \<Rightarrow> jsnum" where
  "Math_round (Num x) = Num (of_int \<lfloor>x + 1/2\<rfloor>)"
| "Math_round Infinity = Infinity"
| "Math_round NaN = NaN"

text \<open>\<^verbatim>\<open>x || y\<close> on numbers: \<open>0\<close> and \<open>NaN\<close> are the falsy numbers.\<close>

fun num_truthy :: "jsnum \<Rightarrow> bool" where
  "num_truthy (Num x) = (x \<noteq> 0)"
| "num_truthy Infinity = True"
| "num_truthy NaN = False"

definition js_or :: "jsnum \<Rightarrow> jsnum \<Rightarrow> jsnum" where
  "js_or x y = (if num_truthy x then x else y)"

text \<open>
  A count (an array length, a number of keys, a score) as a number. An array has fewer
  than \<open>2 ^ 32\<close> elements, so a double holds each of these counts exactly; where a
  statement depends on it, the bound \<open>2 ^ 53\<close> up to which a double holds every integer is
  a hypothesis.
\<close>

definition count :: "nat \<Rightarrow> jsnum" where
  "count n = Num (of_nat n)"

subsection \<open>Stored values and property reads\<close>

text \<open>
  What \<^verbatim>\<open>JSON.parse\<close> can return, and so what an entry of the stored progress can hold.
\<close>

datatype json =
    JNull
  | JBool bool
  | JNumber jsnum
  | JString string
  | JArray "json list"
  | JObject "(string \<times> json) list"

text \<open>
  A read \<^verbatim>\<open>obj[key]\<close> of a plain object gives the object's own entry, or else the member
  that \<^verbatim>\<open>Object.prototype\<close> has under that name (a function or an object), or else
  \<^verbatim>\<open>undefined\<close>.
\<close>

datatype jsread = Own json | Inherited | Undefined

definition object_prototype_keys :: "string list" where
  "object_prototype_keys =
     [''constructor'', ''hasOwnProperty'', ''isPrototypeOf'', ''propertyIsEnumerable'',
      ''toLocaleString'', ''toString'', ''valueOf'', ''__proto__'',
      ''__defineGetter__'', ''__defineSetter__'', ''__lookupGetter__'', ''__lookupSetter__'']"

definition js_get :: "(string, json) fmap \<Rightarrow> string \<Rightarrow> jsread" where
  "js_get obj k =
     (case fmlookup obj k of
        Some v \<Rightarrow> Own v
      | None \<Rightarrow> if k \<in> set object_prototype_keys then Inherited else Undefined)"

fun truthy :: "jsread \<Rightarrow> bool" where
  "truthy (Own JNull) = False"
| "truthy (Own (JBool b)) = b"
| "truthy (Own (JNumber x)) = num_truthy x"
| "truthy (Own (JString s)) = (s \<noteq> [])"
| "truthy (Own (JArray _)) = True"
| "truthy (Own (JObject _)) = True"
| "truthy Inherited = True"
| "truthy Undefined = False"

subsection \<open>Exceptions\<close>

datatype 'a completion = Normal 'a | Throw

definition try_catch :: "'a completion \<Rightarrow> 'a completion \<Rightarrow> 'a completion" where
  "try_catch body handler = (case body of Normal v \<Rightarrow> Normal v | Throw \<Rightarrow> handler)"

section \<open>The course\<close>

record question =
  question_q :: string
  question_options :: "string list"
  question_a :: nat

record lesson =
  lesson_id :: string
  lesson_title :: string
  lesson_content :: string
  lesson_video :: "string option"
  lesson_quiz :: "question list"

record course_module =
  module_id :: string
  module_title :: string
  module_lessons :: "lesson list"

record course =
  course_id :: string
  course_title :: string
  course_subtitle :: string
  course_description :: string
  course_modules :: "course_module list"

text \<open>The sample course of the program (the dash of its description written in ASCII).\<close>

definition SAMPLE_COURSE :: course where
  "SAMPLE_COURSE =
     \<lparr>course_id = ''dropship-101'',
      course_title = ''The Complete Dropshipping Blueprint'',
      course_subtitle = ''Street-Smart, 2025-ready dropshipping course'',
      course_description =
        ''Build, launch, and scale a profitable dropshipping store - tested tactics, ready-made templates, and quizzes to prove knowledge.'',
      course_modules =
        [\<lparr>module_id = ''m1'', module_title = ''Introduction & Mindset'',
          module_lessons =
            [\<lparr>lesson_id = ''m1l1'', lesson_title = ''What is Dropshipping?'',
              lesson_content =
                ''Short text overview. Dropshipping is a retail fulfillment method where you sell products without stocking inventory.'',
              lesson_video = Some ''https://www.w3schools.com/html/mov_bbb.mp4'',
              lesson_quiz =
                [\<lparr>question_q = ''Dropshipping requires you to hold inventory.'',
                  question_options = [''True'', ''False''], question_a = 1\<rparr>]\<rparr>,
             \<lparr>lesson_id = ''m1l2'', lesson_title = ''Mindset & Expectations'',
              lesson_content = ''What success looks like and how to test fast.'',
              lesson_video = None, lesson_quiz = []\<rparr>]\<rparr>,
         \<lparr>module_id = ''m2'', module_title = ''Product Research'',
          module_lessons =
            [\<lparr>lesson_id = ''m2l1'', lesson_title = ''Finding Winning Products'',
              lesson_content = ''Checklist: perceived value, shipping, margin, creative potential.'',
              lesson_video = None,
              lesson_quiz =
                [\<lparr>question_q = ''Which is NOT a sign of a winning product?'',
                  question_options = [''High perceived value'', ''Mass appeal'', ''0% markup''],
                  question_a = 2\<rparr>]\<rparr>]\<rparr>]\<rparr>"

section \<open>Persistence\<close>

definition STORAGE_KEY :: string where
  "STORAGE_KEY = ''dropship_streetsmarts_progress_v1''"

text \<open>
  \<^verbatim>\<open>localStorage\<close> is either not accessible (every access throws) or a table from keys
  to strings; \<^verbatim>\<open>getItem\<close> gives \<^verbatim>\<open>null\<close> (\<open>None\<close>) for a key that is not there.
\<close>

datatype localStorage = Unavailable | Storage "(string, string) fmap"

fun getItem :: "localStorage \<Rightarrow> string \<Rightarrow> string option completion" where
  "getItem Unavailable k = Throw"
| "getItem (Storage t) k = Normal (fmlookup t k)"

definition default_progress :: json where
  "default_progress = JObject [(''completedLessons'', JObject []), (''quizScores'', JObject [])]"

text \<open>
  \<^verbatim>\<open>
  function loadProgress() {
    try {
      const raw = localStorage.getItem(STORAGE_KEY);
      return raw ? JSON.parse(raw) : { completedLessons: {}, quizScores: {} };
    } catch (e) {
      return { completedLessons: {}, quizScores: {} };
    }
  }
  \<close>
  \<^verbatim>\<open>JSON.parse\<close> belongs to the platform: it is a parameter, a function from the stored
  text to the parsed value or to \<open>Throw\<close> for a text that is not JSON. A string is falsy
  when it is empty.
\<close>

definition loadProgress :: "(string \<Rightarrow> json completion) \<Rightarrow> localStorage \<Rightarrow> json completion" where
  "loadProgress JSON_parse ls =
     try_catch
       (case getItem ls STORAGE_KEY of
          Throw \<Rightarrow> Throw
        | Normal raw \<Rightarrow>
            (case raw of
               None \<Rightarrow> Normal default_progress
             | Some s \<Rightarrow> if s \<noteq> [] then JSON_parse s else Normal default_progress))
       (Normal default_progress)"

section \<open>Progress\<close>

record quiz_score =
  qs_score :: nat
  qs_outOf :: nat

record progress =
  completedLessons :: "(string, json) fmap"
  quizScores :: "(string, quiz_score) fmap"

text \<open>
  \<^verbatim>\<open>
  function markComplete(lessonId) {
    setProgress((p) => ({ ...p, completedLessons: { ...p.completedLessons, [lessonId]: true } }));
  }

  function handleQuizSubmit(lessonId, score, outOf) {
    setProgress((p) => ({ ...p, quizScores: { ...p.quizScores, [lessonId]: { score, outOf } } }));
    // auto-mark complete when quiz passed (>=50%)
    if (score / outOf >= 0.5) {
      markComplete(lessonId);
    }
  }
  \<close>
  Both handlers hand React an updater of the progress; React runs the updaters of one
  event in the order they were queued, so a handler is the composition of its updaters.
  The caller passes the number of right answers and the number of questions.
\<close>

definition markComplete :: "string \<Rightarrow> progress \<Rightarrow> progress" where
  "markComplete lessonId p =
     p\<lparr>completedLessons := fmupd lessonId (JBool True) (completedLessons p)\<rparr>"

definition handleQuizSubmit :: "string \<Rightarrow> nat \<Rightarrow> nat \<Rightarrow> progress \<Rightarrow> progress" where
  "handleQuizSubmit lessonId score outOf p =
     (let p1 = p\<lparr>quizScores :=
                   fmupd lessonId \<lparr>qs_score = score, qs_outOf = outOf\<rparr> (quizScores p)\<rparr>
      in if js_ge (js_div (count score) (count outOf)) (Num (1/2))
         then markComplete lessonId p1 else p1)"

text \<open>
  \<^verbatim>\<open>
  const totalLessons = course.modules.reduce((s, m) => s + m.lessons.length, 0);
  const completedCount = Object.keys(progress.completedLessons).length;
  const pct = Math.round((completedCount / totalLessons) * 100) || 0;
  \<close>
\<close>

definition totalLessons :: "course \<Rightarrow> jsnum" where
  "totalLessons c =
     foldl (\<lambda>s m. js_add s (count (length (module_lessons m)))) (Num 0) (course_modules c)"

definition completedCount :: "progress \<Rightarrow> nat" where
  "completedCount p = fcard (fmdom (completedLessons p))"

definition pct :: "course \<Rightarrow> progress \<Rightarrow> jsnum" where
  "pct c p =
     js_or (Math_round (js_mul (js_div (count (completedCount p)) (totalLessons c)) (Num 100)))
       (Num 0)"

text \<open>
  \<^verbatim>\<open>
  // simple certificate availability rule: all lessons complete
  const allDone = course.modules.every((m) => m.lessons.every((l) => progress.completedLessons[l.id]));
  \<close>
\<close>

definition allDone :: "course \<Rightarrow> progress \<Rightarrow> bool" where
  "allDone c p =
     list_all (\<lambda>m. list_all (\<lambda>l. truthy (js_get (completedLessons p) (lesson_id l)))
                 (module_lessons m))
       (course_modules c)"

section \<open>Grading a quiz\<close>

text \<open>
  \<^verbatim>\<open>
  let score = 0;
  lesson.quiz.forEach((q, i) => {
    if (answers[i] === q.a) score++;
  });
  onSubmitQuiz(lesson.id, score, lesson.quiz.length);
  \<close>
  \<open>grade_loop\<close> is the \<^verbatim>\<open>forEach\<close> with its index and the running score; \<open>answers\<close> maps
  a question index to the index of the option chosen, and has no entry for a question
  that was not answered.
\<close>

fun grade_loop :: "question list \<Rightarrow> nat \<Rightarrow> (nat, nat) fmap \<Rightarrow> nat \<Rightarrow> nat" where
  "grade_loop [] i answers score = score"
| "grade_loop (x # xs) i answers score =
     grade_loop xs (Suc i) answers
       (if fmlookup answers i = Some (question_a x) then Suc score else score)"

definition grade :: "question list \<Rightarrow> (nat, nat) fmap \<Rightarrow> nat \<times> nat" where
  "grade quiz answers = (grade_loop quiz 0 answers 0, length quiz)"

section \<open>Adding a module\<close>

text \<open>The decimal digits of a number, as a template literal prints an integer.\<close>

fun decimal :: "nat \<Rightarrow> string" where
  "decimal n =
     (if n < 10 then [''0123456789'' ! n]
      else decimal (n div 10) @ [''0123456789'' ! (n mod 10)])"

declare decimal.simps [simp del]

definition number_to_string :: "int \<Rightarrow> string" where
  "number_to_string i = (if i < 0 then ''-'' @ decimal (nat (- i)) else decimal (nat i))"

text \<open>
  \<^verbatim>\<open>
  function add() {
    if (!title) return;
    const id = `m_${Date.now()}`;
    const newModule = { id, title, lessons: [] };
    setCourse({ ...course, modules: [...course.modules, newModule] });
    setTitle("");
  }
  \<close>
  The state of the admin form is the course and the title typed so far; \<open>now\<close> is what
  \<^verbatim>\<open>Date.now()\<close> returns when the button is pressed.
\<close>

definition add :: "int \<Rightarrow> course \<times> string \<Rightarrow> course \<times> string" where
  "add now st =
     (case st of (course, title) \<Rightarrow>
        if title = [] then (course, title)
        else
          let newModule =
                \<lparr>module_id = ''m_'' @ number_to_string now, module_title = title,
                 module_lessons = []\<rparr>
          in (course\<lparr>course_modules := course_modules course @ [newModule]\<rparr>, []))"

section \<open>The first render\<close>

text \<open>
  \<^verbatim>\<open>
  const [activeModuleId, setActiveModuleId] = useState(course.modules[0].id);
  const [activeLessonId, setActiveLessonId] = useState(course.modules[0].lessons[0].id);
  \<close>
  \<open>App\<close> evaluates both arguments on every render, before anything else is computed
  from the course: reading \<^verbatim>\<open>id\<close> of a module or a lesson that is not there throws.
\<close>

definition initialSelection :: "course \<Rightarrow> (string \<times> string) completion" where
  "initialSelection c =
     (case course_modules c of
        [] \<Rightarrow> Throw
      | m # _ \<Rightarrow>
          (case module_lessons m of
             [] \<Rightarrow> Throw
           | l # _ \<Rightarrow> Normal (module_id m, lesson_id l)))"

section \<open>Notions of the specification\<close>

text \<open>The record without entries, which \<^verbatim>\<open>Reset Progress\<close> installs.\<close>

definition empty_progress :: progress where
  "empty_progress = \<lparr>completedLessons = fmempty, quizScores = fmempty\<rparr>"

text \<open>The lessons of a course, module after module.\<close>

definition lessonsOf :: "course \<Rightarrow> lesson list" where
  "lessonsOf c = concat (map module_lessons (course_modules c))"

text \<open>
  The percentage in the words of the specification: the completed ids that occur in the
  course, over the number of lessons, times 100, rounded; 0 for a course without lessons.
\<close>

definition spec_completionPercent :: "course \<Rightarrow> progress \<Rightarrow> int" where
  "spec_completionPercent c p =
     (let n = length (lessonsOf c);
          k = length (filter (\<lambda>i. i |\<in>| fmdom (completedLessons p))
                        (remdups (map lesson_id (lessonsOf c))))
      in if n = 0 then 0 else \<lfloor>100 * rat_of_nat k / rat_of_nat n + 1/2\<rfloor>)"

definition percent_in_range :: "jsnum \<Rightarrow> bool" where
  "percent_in_range x = (case x of Num r \<Rightarrow> 0 \<le> r \<and> r \<le> 100 | Infinity \<Rightarrow> False | NaN \<Rightarrow> False)"

section \<open>Rounding to a double\<close>

text \<open>
  \<open>rne\<close> is monotone and fixes the integers; \<open>ilog2 x\<close> is the exponent \<open>e\<close> with
  \<open>2 powi e \<le> x < 2 powi (e + 1)\<close>. Hence \<open>fl\<close> is monotone, and it returns every number
  \<open>m * 2 powi j\<close> with \<open>m < 2 ^ 53\<close> as it is: such a number is a double.
\<close>

lemma rne_floor_le: "\<lfloor>x\<rfloor> \<le> rne x"
  by (simp add: rne_def Let_def)

lemma rne_le_floor: "rne x \<le> \<lfloor>x\<rfloor> + 1"
  by (simp add: rne_def Let_def)

lemma rne_of_int [simp]: "rne (of_int z) = z"
  by (simp add: rne_def)

lemma rne_mono: "x \<le> y \<Longrightarrow> rne x \<le> rne y"
proof (cases "\<lfloor>x\<rfloor> = \<lfloor>y\<rfloor>")
  case True
  assume "x \<le> y"
  with True show ?thesis
    by (auto simp: rne_def Let_def)
next
  case False
  assume "x \<le> y"
  then have "\<lfloor>x\<rfloor> \<le> \<lfloor>y\<rfloor>" by (rule floor_mono)
  with False have "\<lfloor>x\<rfloor> + 1 \<le> \<lfloor>y\<rfloor>" by simp
  with rne_le_floor [of x] rne_floor_le [of y] show ?thesis by linarith
qed

lemma ilog2_lower_ge1:
  assumes "1 \<le> q"
  shows "2 powi (ilog2 q) \<le> q" "q < 2 powi (ilog2 q + 1)"
proof -
  let ?z = "\<lfloor>q\<rfloor>"
  from assms have z: "0 < ?z" by simp
  from bitlen_bounds [OF z] have lo: "2 ^ nat (bitlen ?z - 1) \<le> ?z" and hi: "?z < 2 ^ nat (bitlen ?z)"
    by auto
  from z have b1: "1 \<le> bitlen ?z"
    using bitlen_eq_zero_iff [of ?z] bitlen_nonneg [of ?z] by linarith
  have e: "ilog2 q = bitlen ?z - 1" using assms by (simp add: ilog2_def)
  have "(2::rat) powi (bitlen ?z - 1) = of_int (2 ^ nat (bitlen ?z - 1))"
    using b1 by (simp add: power_int_def)
  also have "\<dots> \<le> of_int ?z" using lo by (simp only: of_int_le_iff)
  also have "\<dots> \<le> q" by simp
  finally show "2 powi (ilog2 q) \<le> q" by (simp add: e)
  have "?z + 1 \<le> 2 ^ nat (bitlen ?z)" using hi by simp
  then have "(of_int (?z + 1) :: rat) \<le> of_int (2 ^ nat (bitlen ?z))" by (simp only: of_int_le_iff)
  moreover have "q < of_int (?z + 1)" by linarith
  moreover have "(2::rat) powi (bitlen ?z) = of_int (2 ^ nat (bitlen ?z))"
    using b1 by (simp add: power_int_def)
  ultimately show "q < 2 powi (ilog2 q + 1)" by (simp add: e)
qed

lemma ilog2_bounds_lt1:
  assumes "0 < q" "q < 1"
  shows "2 powi (ilog2 q) \<le> q" "q < 2 powi (ilog2 q + 1)"
proof -
  let ?w = "\<lceil>1 / q\<rceil> - 1"
  let ?L = "bitlen ?w"
  from assms have "1 < 1 / q" by simp
  then have w: "0 < ?w" by (simp add: less_ceiling_iff)
  from bitlen_bounds [OF w] have lo: "2 ^ nat (?L - 1) \<le> ?w" and hi: "?w < 2 ^ nat ?L"
    by auto
  from w have b1: "1 \<le> ?L"
    using bitlen_eq_zero_iff [of ?w] bitlen_nonneg [of ?w] by linarith
  have e: "ilog2 q = - ?L" using assms by (simp add: ilog2_def)
  have "\<lceil>1 / q\<rceil> \<le> 2 ^ nat ?L" using hi by simp
  then have "1 / q \<le> of_int (2 ^ nat ?L)" by (simp only: ceiling_le_iff)
  then have "1 / q \<le> 2 ^ nat ?L" by simp
  then have "1 \<le> 2 ^ nat ?L * q" using assms by (simp add: field_simps)
  then have "inverse (2 ^ nat ?L) \<le> q" by (simp add: field_simps)
  then show "2 powi (ilog2 q) \<le> q" using b1 by (simp add: e power_int_def power_one_over inverse_eq_divide)
  have "2 ^ nat (?L - 1) < \<lceil>1 / q\<rceil>" using lo by simp
  then have "of_int (2 ^ nat (?L - 1)) < 1 / q" by (simp only: less_ceiling_iff)
  then have "2 ^ nat (?L - 1) < 1 / q" by simp
  then have "q * 2 ^ nat (?L - 1) < 1" using assms by (simp add: field_simps)
  then have "q < inverse (2 ^ nat (?L - 1))" by (simp add: field_simps)
  moreover have "(2::rat) powi (- ?L + 1) = inverse (2 ^ nat (?L - 1))"
    using b1 by (auto simp: power_int_def power_one_over inverse_eq_divide)
  ultimately show "q < 2 powi (ilog2 q + 1)" by (simp add: e)
qed

lemma ilog2_bounds:
  assumes "0 < q"
  shows "2 powi (ilog2 q) \<le> q" "q < 2 powi (ilog2 q + 1)"
  using assms ilog2_lower_ge1 [of q] ilog2_bounds_lt1 [of q] by (cases "1 \<le> q"; simp)+

lemma ilog2_mono:
  assumes "0 < q" "q \<le> r"
  shows "ilog2 q \<le> ilog2 r"
proof (rule ccontr)
  assume "\<not> ilog2 q \<le> ilog2 r"
  then have "ilog2 r + 1 \<le> ilog2 q" by simp
  then have "(2::rat) powi (ilog2 r + 1) \<le> 2 powi (ilog2 q)"
    by (rule power_int_increasing) simp
  moreover have "0 < r" using assms by simp
  ultimately show False
    using ilog2_bounds(1) [OF assms(1)] ilog2_bounds(2) [of r] assms(2) by linarith
qed


lemma pow2_shift: "(2::rat) ^ n * 2 powi (e - int n) = 2 powi e"
proof -
  have "(2::rat) powi (int n) * 2 powi (e - int n) = 2 powi (int n + (e - int n))"
    by (rule power_int_add [symmetric]) simp
  then show ?thesis by simp
qed

lemma fl_pos_eq:
  "0 < q \<Longrightarrow> fl q = of_int (rne (q * 2 powi (52 - ilog2 q))) * 2 powi (ilog2 q - 52)"
  by (simp add: fl_def Let_def)

lemma scaled_bounds:
  assumes "0 < q"
  shows "2 ^ 52 \<le> q * 2 powi (52 - ilog2 q)" "q * 2 powi (52 - ilog2 q) < 2 ^ 53"
proof -
  let ?e = "ilog2 q"
  have s: "(0::rat) < 2 powi (52 - ?e)" by simp
  have "(2::rat) powi ?e * 2 powi (52 - ?e) = 2 powi 52" by (simp flip: power_int_add)
  then have a: "(2::rat) powi ?e * 2 powi (52 - ?e) = 2 ^ 52" by simp
  have "(2::rat) powi (?e + 1) * 2 powi (52 - ?e) = 2 powi 53" by (simp flip: power_int_add)
  then have b: "(2::rat) powi (?e + 1) * 2 powi (52 - ?e) = 2 ^ 53" by simp
  from ilog2_bounds(1) [OF assms] s have "2 powi ?e * 2 powi (52 - ?e) \<le> q * 2 powi (52 - ?e)"
    by (simp only: mult_le_cancel_right_pos)
  with a show "2 ^ 52 \<le> q * 2 powi (52 - ?e)" by simp
  from ilog2_bounds(2) [OF assms] s have "q * 2 powi (52 - ?e) < 2 powi (?e + 1) * 2 powi (52 - ?e)"
    by (simp only: mult_less_cancel_right_pos)
  with b show "q * 2 powi (52 - ?e) < 2 ^ 53" by simp
qed

lemma fl_bounds:
  assumes "0 < q"
  shows "2 powi (ilog2 q) \<le> fl q" "fl q \<le> 2 powi (ilog2 q + 1)"
proof -
  let ?e = "ilog2 q"
  let ?x = "q * 2 powi (52 - ?e)"
  note sb = scaled_bounds [OF assms]
  have "rne (of_int (2 ^ 52)) \<le> rne ?x" using sb(1) by (intro rne_mono) simp
  then have lo: "2 ^ 52 \<le> rne ?x" by (simp only: rne_of_int)
  have "rne ?x \<le> rne (of_int (2 ^ 53))" using sb(2) by (intro rne_mono) simp
  then have hi: "rne ?x \<le> 2 ^ 53" by (simp only: rne_of_int)
  have s: "(0::rat) < 2 powi (?e - 52)" by simp
  have a: "(2::rat) ^ 52 * 2 powi (?e - 52) = 2 powi ?e"
    using pow2_shift [of 52 ?e] by simp
  have b: "(2::rat) ^ 53 * 2 powi (?e - 52) = 2 powi (?e + 1)"
    using pow2_shift [of 53 "?e + 1"] by simp
  from lo have "(of_int (2 ^ 52) :: rat) \<le> of_int (rne ?x)" by (simp only: of_int_le_iff)
  then have "(2::rat) ^ 52 * 2 powi (?e - 52) \<le> of_int (rne ?x) * 2 powi (?e - 52)"
    using s by (simp only: mult_le_cancel_right_pos) simp
  then show "2 powi ?e \<le> fl q" by (simp only: a fl_pos_eq [OF assms])
  from hi have "(of_int (rne ?x) :: rat) \<le> of_int (2 ^ 53)" by (simp only: of_int_le_iff)
  then have "of_int (rne ?x) * 2 powi (?e - 52) \<le> (2::rat) ^ 53 * 2 powi (?e - 52)"
    using s by (simp only: mult_le_cancel_right_pos) simp
  then show "fl q \<le> 2 powi (?e + 1)" by (simp only: b fl_pos_eq [OF assms])
qed

lemma fl_nonneg: "0 \<le> fl q"
proof (cases "0 < q")
  case True
  from fl_bounds(1) [OF True] zero_less_power_int [of "2::rat" "ilog2 q"] show ?thesis by linarith
next
  case False
  then show ?thesis by (simp add: fl_def)
qed

lemma fl_mono:
  assumes "q \<le> r"
  shows "fl q \<le> fl r"
proof (cases "0 < q")
  case False
  then have "fl q = 0" by (simp add: fl_def)
  then show ?thesis by (simp add: fl_nonneg)
next
  case q: True
  with assms have r: "0 < r" by simp
  from ilog2_mono [OF q assms] have "ilog2 q = ilog2 r \<or> ilog2 q + 1 \<le> ilog2 r" by linarith
  then show ?thesis
  proof
    assume e: "ilog2 q = ilog2 r"
    have "q * 2 powi (52 - ilog2 r) \<le> r * 2 powi (52 - ilog2 r)"
      using assms by (simp add: mult_right_mono)
    then have "rne (q * 2 powi (52 - ilog2 r)) \<le> rne (r * 2 powi (52 - ilog2 r))"
      by (rule rne_mono)
    then have "(of_int (rne (q * 2 powi (52 - ilog2 r))) :: rat) \<le> of_int (rne (r * 2 powi (52 - ilog2 r)))"
      by (simp only: of_int_le_iff)
    then have "of_int (rne (q * 2 powi (52 - ilog2 r))) * 2 powi (ilog2 r - 52)
        \<le> of_int (rne (r * 2 powi (52 - ilog2 r))) * (2::rat) powi (ilog2 r - 52)"
      by (rule mult_right_mono) simp
    then show ?thesis by (simp only: fl_pos_eq [OF q] fl_pos_eq [OF r] e)
  next
    assume "ilog2 q + 1 \<le> ilog2 r"
    then have "(2::rat) powi (ilog2 q + 1) \<le> 2 powi (ilog2 r)"
      by (rule power_int_increasing) simp
    with fl_bounds(2) [OF q] fl_bounds(1) [OF r] show ?thesis by linarith
  qed
qed

lemma fl_representable:
  assumes "0 < m" "m < 2 ^ 53"
  shows "fl (of_int m * 2 powi j) = of_int m * 2 powi j"
proof -
  let ?q = "of_int m * (2::rat) powi j"
  let ?e = "ilog2 ?q"
  have q: "0 < ?q" using assms(1) by simp
  have "(of_int m :: rat) < of_int (2 ^ 53)" using assms(2) by (simp only: of_int_less_iff)
  then have "?q < 2 ^ 53 * 2 powi j" by simp
  also have "\<dots> = 2 powi (53 + j)" using power_int_add [of "2::rat" 53 j] by simp
  finally have "2 powi ?e < (2::rat) powi (53 + j)" using ilog2_bounds(1) [OF q] by linarith
  then have "?e < 53 + j"
    using power_int_increasing [of "53 + j" ?e "2::rat"] by (cases "?e < 53 + j"; simp)
  then have k: "0 \<le> j + 52 - ?e" by simp
  have "?q * 2 powi (52 - ?e) = of_int m * (2 powi j * 2 powi (52 - ?e))" by simp
  also have "2 powi j * (2::rat) powi (52 - ?e) = 2 powi (j + 52 - ?e)"
    using power_int_add [of "2::rat" j "52 - ?e"] by (simp add: algebra_simps)
  also have "\<dots> = of_int (2 ^ nat (j + 52 - ?e))" using k by (simp add: power_int_def)
  finally have "?q * 2 powi (52 - ?e) = of_int (m * 2 ^ nat (j + 52 - ?e))" by simp
  then have "rne (?q * 2 powi (52 - ?e)) = m * 2 ^ nat (j + 52 - ?e)" by (simp only: rne_of_int)
  then have "fl ?q = of_int (m * 2 ^ nat (j + 52 - ?e)) * 2 powi (?e - 52)"
    by (simp only: fl_pos_eq [OF q])
  also have "\<dots> = of_int m * (2 powi (j + 52 - ?e) * 2 powi (?e - 52))"
    using k by (simp add: power_int_def)
  also have "2 powi (j + 52 - ?e) * (2::rat) powi (?e - 52) = 2 powi j"
    using power_int_add [of "2::rat" "j + 52 - ?e" "?e - 52"] by simp
  finally show ?thesis .
qed

lemma fl_of_nat:
  assumes "n < 2 ^ 53"
  shows "fl (of_nat n) = of_nat n"
proof (cases "n = 0")
  case True
  then show ?thesis by (simp add: fl_def)
next
  case False
  then have "0 < int n" by simp
  moreover have "int n < int (2 ^ 53)" using assms by (simp only: of_nat_less_iff)
  then have "int n < 2 ^ 53" by simp
  ultimately have "fl (of_int (int n) * 2 powi 0) = of_int (int n) * 2 powi 0"
    by (rule fl_representable)
  then show ?thesis by simp
qed

section \<open>Marking a lesson complete\<close>

lemma fmupd_same: "fmlookup m k = Some v \<Longrightarrow> fmupd k v m = m"
  by (rule fmap_ext) auto

text \<open>
  C5 (as amended): \<open>markComplete\<close> is idempotent: applied twice with one lesson id it
  yields the record that one application yields. It adds the lesson id to the ids of
  \<open>completedLessons\<close>, with the value \<^verbatim>\<open>true\<close>, which every truthiness test of the program
  accepts. If the id is already there, the set of completed ids stays as it is; the whole
  record is returned as it was given when the id is recorded with \<^verbatim>\<open>true\<close>, the value the
  program writes, and an entry with any other value is overwritten with \<^verbatim>\<open>true\<close>.
\<close>

theorem markComplete_idempotent:
  "markComplete l (markComplete l p) = markComplete l p
   \<and> fmdom (completedLessons (markComplete l p)) = finsert l (fmdom (completedLessons p))
   \<and> fmlookup (completedLessons (markComplete l p)) l = Some (JBool True)
   \<and> truthy (js_get (completedLessons (markComplete l p)) l)
   \<and> (l |\<in>| fmdom (completedLessons p) \<longrightarrow>
        fmdom (completedLessons (markComplete l p)) = fmdom (completedLessons p))
   \<and> (fmlookup (completedLessons p) l = Some (JBool True) \<longrightarrow> markComplete l p = p)"
  by (auto simp: markComplete_def js_get_def fmupd_same)

theorem markComplete_idempotent_witness:
  "fmlookup (completedLessons (markComplete ''m1l1'' empty_progress)) ''m1l1'' = Some (JBool True)
   \<and> markComplete ''m1l1'' (markComplete ''m1l1'' empty_progress)
       = markComplete ''m1l1'' empty_progress"
  using markComplete_idempotent [of "''m1l1''" "markComplete ''m1l1'' empty_progress"]
  by (simp add: markComplete_def)

text \<open>
  With the id present under another value, as a stored record can hold it, the record
  changes: \<^verbatim>\<open>false\<close> becomes \<^verbatim>\<open>true\<close>.
\<close>

theorem markComplete_overwrites_entry:
  "''m1l1'' |\<in>| fmdom (completedLessons
       \<lparr>completedLessons = fmupd ''m1l1'' (JBool False) fmempty, quizScores = fmempty\<rparr>)
   \<and> markComplete ''m1l1''
       \<lparr>completedLessons = fmupd ''m1l1'' (JBool False) fmempty, quizScores = fmempty\<rparr>
     \<noteq> \<lparr>completedLessons = fmupd ''m1l1'' (JBool False) fmempty, quizScores = fmempty\<rparr>"
proof -
  let ?m = "fmupd ''m1l1'' (JBool False) fmempty"
  have "fmlookup (fmupd ''m1l1'' (JBool True) ?m) ''m1l1'' \<noteq> fmlookup ?m ''m1l1''"
    by simp
  then have "fmupd ''m1l1'' (JBool True) ?m \<noteq> ?m" by metis
  then show ?thesis by (simp add: markComplete_def)
qed

section \<open>What the two handlers leave alone\<close>

lemma handleQuizSubmit_quizScores:
  "quizScores (handleQuizSubmit l s n p)
     = fmupd l \<lparr>qs_score = s, qs_outOf = n\<rparr> (quizScores p)"
  by (simp add: handleQuizSubmit_def markComplete_def Let_def)

lemma handleQuizSubmit_completedLessons:
  "completedLessons (handleQuizSubmit l s n p)
     = (if js_ge (js_div (count s) (count n)) (Num (1/2))
        then fmupd l (JBool True) (completedLessons p) else completedLessons p)"
  by (simp add: handleQuizSubmit_def markComplete_def Let_def)

text \<open>
  C10: \<open>markComplete\<close> leaves \<open>quizScores\<close> and every entry of \<open>completedLessons\<close> under
  another lesson id as they were; \<open>handleQuizSubmit\<close> leaves the entries of \<open>quizScores\<close>
  and of \<open>completedLessons\<close> under every other lesson id as they were; and no key of either
  table is lost by either operation.
\<close>

theorem handlers_frame:
  "quizScores (markComplete l p) = quizScores p
   \<and> (\<forall>k. k \<noteq> l \<longrightarrow>
         fmlookup (completedLessons (markComplete l p)) k = fmlookup (completedLessons p) k)
   \<and> (\<forall>k. k \<noteq> l \<longrightarrow>
         fmlookup (quizScores (handleQuizSubmit l s n p)) k = fmlookup (quizScores p) k)
   \<and> (\<forall>k. k \<noteq> l \<longrightarrow>
         fmlookup (completedLessons (handleQuizSubmit l s n p)) k
           = fmlookup (completedLessons p) k)
   \<and> fmdom (completedLessons p) |\<subseteq>| fmdom (completedLessons (markComplete l p))
   \<and> fmdom (quizScores p) |\<subseteq>| fmdom (quizScores (markComplete l p))
   \<and> fmdom (completedLessons p) |\<subseteq>| fmdom (completedLessons (handleQuizSubmit l s n p))
   \<and> fmdom (quizScores p) |\<subseteq>| fmdom (quizScores (handleQuizSubmit l s n p))"
  by (auto simp: handleQuizSubmit_quizScores handleQuizSubmit_completedLessons markComplete_def)

theorem handlers_frame_witness:
  "''m1l2'' \<noteq> ''m1l1''
   \<and> fmlookup (completedLessons
                 (handleQuizSubmit ''m1l1'' 1 1 (markComplete ''m1l2'' empty_progress))) ''m1l2''
       = Some (JBool True)
   \<and> fmlookup (quizScores (handleQuizSubmit ''m1l1'' 1 1 (markComplete ''m1l2'' empty_progress)))
         ''m1l2'' = None"
  using handlers_frame [of "''m1l1''" "markComplete ''m1l2'' empty_progress" 1 1]
  by (simp add: markComplete_def empty_progress_def)

section \<open>The certificate on a course without lessons\<close>

text \<open>
  C9: on a course whose modules hold no lesson at all (a course without modules included),
  the certificate check \<open>allDone\<close> holds for every progress record.
\<close>

theorem allDone_no_lessons:
  "lessonsOf c = [] \<Longrightarrow> allDone c p"
  by (simp add: lessonsOf_def allDone_def list_all_iff)

theorem allDone_no_lessons_witness:
  "lessonsOf (SAMPLE_COURSE\<lparr>course_modules :=
       [\<lparr>module_id = ''m_5'', module_title = ''New'', module_lessons = []\<rparr>]\<rparr>) = []
   \<and> allDone (SAMPLE_COURSE\<lparr>course_modules :=
       [\<lparr>module_id = ''m_5'', module_title = ''New'', module_lessons = []\<rparr>]\<rparr>) empty_progress"
  using allDone_no_lessons [of "SAMPLE_COURSE\<lparr>course_modules :=
       [\<lparr>module_id = ''m_5'', module_title = ''New'', module_lessons = []\<rparr>]\<rparr>" empty_progress]
  by (simp add: lessonsOf_def)

section \<open>Loading the stored progress\<close>

text \<open>
  C8: \<open>loadProgress\<close> never throws. It returns the default record when the storage cannot
  be read, when the key is absent, and when the stored text does not parse; otherwise it
  returns what the stored text parses to. (\<^verbatim>\<open>JSON.parse\<close> rejects the empty text; that is
  the one fact about the parser the statement needs.)
\<close>

theorem loadProgress_never_throws:
  assumes "JSON_parse [] = Throw"
  shows "(\<exists>v. loadProgress JSON_parse ls = Normal v)
   \<and> (getItem ls STORAGE_KEY = Throw \<longrightarrow> loadProgress JSON_parse ls = Normal default_progress)
   \<and> (getItem ls STORAGE_KEY = Normal None \<longrightarrow>
        loadProgress JSON_parse ls = Normal default_progress)
   \<and> (\<forall>raw. getItem ls STORAGE_KEY = Normal (Some raw) \<and> JSON_parse raw = Throw \<longrightarrow>
        loadProgress JSON_parse ls = Normal default_progress)
   \<and> (\<forall>raw v. getItem ls STORAGE_KEY = Normal (Some raw) \<and> JSON_parse raw = Normal v \<longrightarrow>
        loadProgress JSON_parse ls = Normal v)"
  using assms
  by (cases "getItem ls STORAGE_KEY")
     (auto simp: loadProgress_def try_catch_def split: option.splits completion.splits)

theorem loadProgress_never_throws_witness:
  "(\<lambda>s. if s = ''{}'' then Normal (JObject []) else Throw) [] = Throw
   \<and> getItem (Storage (fmupd STORAGE_KEY ''{}'' fmempty)) STORAGE_KEY = Normal (Some ''{}'')
   \<and> loadProgress (\<lambda>s. if s = ''{}'' then Normal (JObject []) else Throw)
        (Storage (fmupd STORAGE_KEY ''{}'' fmempty)) = Normal (JObject [])"
  using loadProgress_never_throws
    [of "\<lambda>s. if s = ''{}'' then Normal (JObject []) else Throw"
        "Storage (fmupd STORAGE_KEY ''{}'' fmempty)"]
  by simp

section \<open>Submitting a quiz\<close>

lemma fl_half: "fl (1/2) = 1/2"
  using fl_representable [of 1 "-1"] by simp

lemma fl_below_half:
  assumes "2 * s < n" "n < 2 ^ 53"
  shows "fl (rat_of_nat s / rat_of_nat n) < 1/2"
proof -
  let ?d = "rat_of_int (2 ^ 53 - 1) * 2 powi (- 54)"
  have d: "fl ?d = ?d" by (rule fl_representable) simp_all
  have dv: "?d = 9007199254740991 / 18014398509481984" by (simp add: power_int_minus)
  have "18014398509481984 * s \<le> 9007199254740991 * n" using assms by simp
  then have "rat_of_nat (18014398509481984 * s) \<le> rat_of_nat (9007199254740991 * n)"
    by (simp only: of_nat_le_iff)
  then have "rat_of_nat s * 18014398509481984 \<le> 9007199254740991 * rat_of_nat n"
    by (simp add: mult.commute)
  moreover have "0 < rat_of_nat n" using assms by simp
  ultimately have "rat_of_nat s / rat_of_nat n \<le> ?d"
    by (simp add: dv field_simps)
  then have "fl (rat_of_nat s / rat_of_nat n) \<le> fl ?d" by (rule fl_mono)
  also have "fl ?d = 9007199254740991 / 18014398509481984" using d by (simp only: dv)
  finally show ?thesis by simp
qed

lemma fl_ge_half_iff:
  assumes "0 < n" "n < 2 ^ 53"
  shows "1/2 \<le> fl (rat_of_nat s / rat_of_nat n) \<longleftrightarrow> 1/2 \<le> rat_of_nat s / rat_of_nat n"
proof
  assume "1/2 \<le> rat_of_nat s / rat_of_nat n"
  then have "fl (1/2) \<le> fl (rat_of_nat s / rat_of_nat n)" by (rule fl_mono)
  then show "1/2 \<le> fl (rat_of_nat s / rat_of_nat n)" by (simp add: fl_half)
next
  assume a: "1/2 \<le> fl (rat_of_nat s / rat_of_nat n)"
  show "1/2 \<le> rat_of_nat s / rat_of_nat n"
  proof (rule ccontr)
    assume "\<not> 1/2 \<le> rat_of_nat s / rat_of_nat n"
    then have "rat_of_nat s / rat_of_nat n < 1/2" by simp
    then have "rat_of_nat (2 * s) < rat_of_nat n" using assms by (simp add: field_simps)
    then have "2 * s < n" by (simp only: of_nat_less_iff)
    from fl_below_half [OF this assms(2)] a show False by simp
  qed
qed

text \<open>
  C3: for \<open>outOf > 0\<close> (a number of questions, which a double holds exactly),
  \<open>handleQuizSubmit\<close> sets the score entry of the lesson to the given score and total,
  whatever was there; with \<open>score / outOf \<ge> 1/2\<close>, the bound itself included, the lesson is
  in \<open>completedLessons\<close> afterwards; with \<open>score / outOf < 1/2\<close> the table
  \<open>completedLessons\<close> is left as it was, so nothing is completed and an earlier completion
  stays.
\<close>

theorem handleQuizSubmit_threshold:
  assumes "0 < outOf" "outOf < 2 ^ 53"
  shows "fmlookup (quizScores (handleQuizSubmit l score outOf p)) l
           = Some \<lparr>qs_score = score, qs_outOf = outOf\<rparr>
     \<and> (1/2 \<le> rat_of_nat score / rat_of_nat outOf \<longrightarrow>
          fmlookup (completedLessons (handleQuizSubmit l score outOf p)) l = Some (JBool True))
     \<and> (rat_of_nat score / rat_of_nat outOf < 1/2 \<longrightarrow>
          completedLessons (handleQuizSubmit l score outOf p) = completedLessons p)"
  using assms fl_ge_half_iff [of outOf score]
  by (auto simp: handleQuizSubmit_quizScores handleQuizSubmit_completedLessons count_def)

theorem handleQuizSubmit_threshold_witness:
  "(0::nat) < 2 \<and> (2::nat) < 2 ^ 53 \<and> 1/2 \<le> rat_of_nat 1 / rat_of_nat 2
   \<and> fmlookup (completedLessons (handleQuizSubmit ''m1l1'' 1 2 empty_progress)) ''m1l1''
        = Some (JBool True)
   \<and> rat_of_nat 0 / rat_of_nat 2 < 1/2
   \<and> completedLessons (handleQuizSubmit ''m1l1'' 0 2 empty_progress)
        = completedLessons empty_progress"
  using handleQuizSubmit_threshold
          [where outOf = 2 and score = 1 and l = "''m1l1''" and p = empty_progress]
        handleQuizSubmit_threshold
          [where outOf = 2 and score = 0 and l = "''m1l1''" and p = empty_progress]
  by simp

section \<open>The score of a quiz\<close>

lemma card_index_Suc:
  "card {j. j < Suc n \<and> P j} = (if P 0 then 1 else 0) + card {j. j < n \<and> P (Suc j)}"
proof -
  let ?A = "{j. j < n \<and> P (Suc j)}"
  have fin: "finite ?A" by simp
  have split: "{j. j < Suc n \<and> P j} = (if P 0 then {0} else {}) \<union> Suc ` ?A"
  proof (rule set_eqI)
    fix j
    show "j \<in> {j. j < Suc n \<and> P j} \<longleftrightarrow> j \<in> (if P 0 then {0} else {}) \<union> Suc ` ?A"
      by (cases j) auto
  qed
  have "card (Suc ` ?A) = card ?A" by (rule card_image) simp
  moreover have "card ((if P 0 then {0} else {}) \<union> Suc ` ?A)
      = card (if P 0 then {0::nat} else {}) + card (Suc ` ?A)"
    using fin by (intro card_Un_disjoint) auto
  ultimately show ?thesis by (simp add: split)
qed

lemma grade_loop_count:
  "grade_loop qs i answers s
     = s + card {j. j < length qs \<and> fmlookup answers (i + j) = Some (question_a (qs ! j))}"
proof (induction qs arbitrary: i s)
  case Nil
  then show ?case by simp
next
  case (Cons x xs)
  show ?case
    by (simp add: Cons.IH card_index_Suc
          [of "length xs" "\<lambda>j. fmlookup answers (i + j) = Some (question_a ((x # xs) ! j))"])
qed

text \<open>
  C4: grading returns the number of questions as \<open>outOf\<close> and, as score, the number of
  indices \<open>i\<close> at which the answer chosen is the question's correct index; an index without
  an answer counts as wrong. With every answer right the score equals \<open>outOf\<close>, and without
  any answer it is 0.
\<close>

theorem grade_counts_correct_answers:
  "grade quiz answers
     = (card {i. i < length quiz \<and> fmlookup answers i = Some (question_a (quiz ! i))},
        length quiz)
   \<and> ((\<forall>i < length quiz. fmlookup answers i = Some (question_a (quiz ! i))) \<longrightarrow>
        fst (grade quiz answers) = snd (grade quiz answers))
   \<and> fst (grade quiz fmempty) = 0"
proof -
  have all: "card {i. i < length quiz \<and> fmlookup answers i = Some (question_a (quiz ! i))}
      = length quiz"
    if "\<forall>i < length quiz. fmlookup answers i = Some (question_a (quiz ! i))"
  proof -
    from that have "{i. i < length quiz \<and> fmlookup answers i = Some (question_a (quiz ! i))}
        = {..<length quiz}" by auto
    then show ?thesis by simp
  qed
  show ?thesis
    by (simp add: grade_def grade_loop_count all)
qed

theorem grade_counts_correct_answers_witness:
  "grade [\<lparr>question_q = ''Dropshipping requires you to hold inventory.'',
            question_options = [''True'', ''False''], question_a = 1\<rparr>] (fmupd 0 1 fmempty)
     = (1, 1)
   \<and> fst (grade [\<lparr>question_q = ''Dropshipping requires you to hold inventory.'',
            question_options = [''True'', ''False''], question_a = 1\<rparr>] (fmupd 0 1 fmempty))
     = snd (grade [\<lparr>question_q = ''Dropshipping requires you to hold inventory.'',
            question_options = [''True'', ''False''], question_a = 1\<rparr>] (fmupd 0 1 fmempty))"
proof -
  let ?quiz = "[\<lparr>question_q = ''Dropshipping requires you to hold inventory.'',
                 question_options = [''True'', ''False''], question_a = 1\<rparr>]"
  have h: "\<forall>i < length ?quiz. fmlookup (fmupd 0 1 fmempty) i = Some (question_a (?quiz ! i))"
    by simp
  have c: "{i. i < length ?quiz \<and> fmlookup (fmupd 0 1 fmempty) i = Some (question_a (?quiz ! i))}
      = {0}" by auto
  from grade_counts_correct_answers [of ?quiz "fmupd 0 1 fmempty"] h c show ?thesis
    by simp
qed

section \<open>The id of an added module\<close>

lemma digit_inj:
  assumes "a < 10" "b < 10" "''0123456789'' ! a = ''0123456789'' ! b"
  shows "a = b"
proof -
  have "a \<in> {0, 1, 2, 3, 4, 5, 6, 7, 8, 9}" "b \<in> {0, 1, 2, 3, 4, 5, 6, 7, 8, 9}"
    using assms(1,2) by auto
  with assms(3) show ?thesis by (auto simp: nth_Cons')
qed

lemma digit_not_minus: "a < 10 \<Longrightarrow> ''0123456789'' ! a \<noteq> CHR ''-''"
proof -
  assume "a < 10"
  then have "a \<in> {0, 1, 2, 3, 4, 5, 6, 7, 8, 9}" by auto
  then show ?thesis by (auto simp: nth_Cons')
qed

lemma decimal_nonempty: "decimal n \<noteq> []"
  by (subst decimal.simps) simp

lemma decimal_no_minus: "CHR ''-'' \<notin> set (decimal n)"
proof (induction n rule: decimal.induct)
  case (1 n)
  show ?case
  proof (cases "n < 10")
    case True
    then show ?thesis using digit_not_minus [of n] by (subst decimal.simps) auto
  next
    case False
    have "n mod 10 < 10" by simp
    with False "1.IH" digit_not_minus [of "n mod 10"] show ?thesis
      by (subst decimal.simps) auto
  qed
qed

lemma decimal_inj: "decimal a = decimal b \<Longrightarrow> a = b"
proof (induction a arbitrary: b rule: decimal.induct)
  case (1 n)
  show ?case
  proof (cases "n < 10")
    case small: True
    show ?thesis
    proof (cases "b < 10")
      case True
      with small "1.prems" show ?thesis
        using digit_inj [of n b] decimal.simps [of n] decimal.simps [of b] by simp
    next
      case False
      with small "1.prems" decimal_nonempty [of "b div 10"] show ?thesis
        using decimal.simps [of n] decimal.simps [of b] by (cases "decimal (b div 10)") auto
    qed
  next
    case large: False
    show ?thesis
    proof (cases "b < 10")
      case True
      with large "1.prems" decimal_nonempty [of "n div 10"] show ?thesis
        using decimal.simps [of n] decimal.simps [of b] by (cases "decimal (n div 10)") auto
    next
      case False
      with large "1.prems" have eq: "decimal (n div 10) = decimal (b div 10)"
        and dg: "''0123456789'' ! (n mod 10) = ''0123456789'' ! (b mod 10)"
        using decimal.simps [of n] decimal.simps [of b] by auto
      from "1.IH" [OF large eq] have "n div 10 = b div 10" .
      moreover from dg have "n mod 10 = b mod 10" by (intro digit_inj) simp_all
      ultimately show ?thesis by (metis div_mult_mod_eq)
    qed
  qed
qed

lemma number_to_string_inj: "number_to_string i = number_to_string j \<Longrightarrow> i = j"
proof -
  assume eq: "number_to_string i = number_to_string j"
  consider "i < 0" "j < 0" | "i < 0" "0 \<le> j" | "0 \<le> i" "j < 0" | "0 \<le> i" "0 \<le> j" by linarith
  then show ?thesis
  proof cases
    case 1
    with eq have "nat (- i) = nat (- j)" by (auto simp: number_to_string_def dest: decimal_inj)
    with 1 show ?thesis by simp
  next
    case 2
    with eq have "CHR ''-'' # decimal (nat (- i)) = decimal (nat j)"
      by (simp add: number_to_string_def)
    then have "CHR ''-'' \<in> set (decimal (nat j))" by (metis list.set_intros(1))
    then show ?thesis by (simp add: decimal_no_minus)
  next
    case 3
    with eq have "decimal (nat i) = CHR ''-'' # decimal (nat (- j))"
      by (simp add: number_to_string_def)
    then have "CHR ''-'' \<in> set (decimal (nat i))" by (metis list.set_intros(1))
    then show ?thesis by (simp add: decimal_no_minus)
  next
    case 4
    with eq have "nat i = nat j" by (auto simp: number_to_string_def dest: decimal_inj)
    with 4 show ?thesis by simp
  qed
qed

text \<open>
  C7 (as amended): with an empty title \<open>add\<close> changes nothing. With any other title it
  appends exactly one module at the end of the module list, carrying that title, no lessons
  and the id \<^verbatim>\<open>m_\<close> followed by the clock reading in decimal, and it clears the title
  field. The module ids stay distinct if no module had that id before, and ids made at
  different clock readings differ.
\<close>

theorem add_appends_module:
  "add now (c, []) = (c, [])
   \<and> (title \<noteq> [] \<longrightarrow>
        add now (c, title)
          = (c\<lparr>course_modules := course_modules c @
                 [\<lparr>module_id = ''m_'' @ number_to_string now, module_title = title,
                   module_lessons = []\<rparr>]\<rparr>, []))
   \<and> (title \<noteq> [] \<longrightarrow> distinct (map module_id (course_modules c)) \<longrightarrow>
        (\<forall>m \<in> set (course_modules c). module_id m \<noteq> ''m_'' @ number_to_string now) \<longrightarrow>
        distinct (map module_id (course_modules (fst (add now (c, title))))))
   \<and> (now \<noteq> now' \<longrightarrow> ''m_'' @ number_to_string now \<noteq> ''m_'' @ number_to_string now')"
  by (auto simp: add_def Let_def dest: number_to_string_inj)

text \<open>
  The id is not fresh in general: a second module added at the same clock reading gets the
  id of the first.
\<close>

theorem add_id_collides:
  "module_id (last (course_modules (fst (add 5 (fst (add 5 (SAMPLE_COURSE, ''A'')), ''B'')))))
     \<in> module_id ` set (course_modules (fst (add 5 (SAMPLE_COURSE, ''A''))))"
  by (simp add: add_def Let_def)

theorem add_appends_module_witness:
  "''New'' \<noteq> [] \<and> distinct (map module_id (course_modules SAMPLE_COURSE))
   \<and> ''m_'' @ number_to_string 5 \<notin> module_id ` set (course_modules SAMPLE_COURSE)
   \<and> (5::int) \<noteq> 6
   \<and> map module_id (course_modules (fst (add 5 (SAMPLE_COURSE, ''New'')))) = [''m1'', ''m2'', ''m_5'']
   \<and> distinct (map module_id (course_modules (fst (add 5 (SAMPLE_COURSE, ''New'')))))
   \<and> ''m_'' @ number_to_string 5 \<noteq> ''m_'' @ number_to_string 6"
  using add_appends_module [of 5 SAMPLE_COURSE "''New''" 6]
  by (simp add: SAMPLE_COURSE_def number_to_string_def decimal.simps)

section \<open>The percentage of completed lessons\<close>

lemma js_add_count:
  "a + b < 2 ^ 53 \<Longrightarrow> js_add (count a) (count b) = count (a + b)"
  using fl_of_nat [of "a + b"] by (simp add: count_def)

lemma foldl_js_add_count:
  "s + length (concat (map module_lessons ms)) < 2 ^ 53 \<Longrightarrow>
   foldl (\<lambda>s m. js_add s (count (length (module_lessons m)))) (count s) ms
     = count (s + length (concat (map module_lessons ms)))"
proof (induction ms arbitrary: s)
  case Nil
  then show ?case by simp
next
  case (Cons m ms)
  from Cons.prems have a: "s + length (module_lessons m) < 2 ^ 53" by simp
  from Cons.prems
  have b: "(s + length (module_lessons m)) + length (concat (map module_lessons ms)) < 2 ^ 53"
    by simp
  show ?case
    by (simp add: js_add_count [OF a] Cons.IH [OF b] add.assoc)
qed

lemma totalLessons_count:
  "length (lessonsOf c) < 2 ^ 53 \<Longrightarrow> totalLessons c = count (length (lessonsOf c))"
  using foldl_js_add_count [of 0 "course_modules c"]
  by (simp add: totalLessons_def lessonsOf_def count_def)

lemma pct_value:
  assumes "0 < length (lessonsOf c)" "length (lessonsOf c) < 2 ^ 53"
  shows "pct c p
    = Num (of_int \<lfloor>fl (fl (rat_of_nat (completedCount p) / rat_of_nat (length (lessonsOf c))) * 100)
                     + 1/2\<rfloor>)"
  using assms by (simp add: pct_def totalLessons_count count_def js_or_def)

lemma rne_error: "\<bar>rat_of_int (rne x) - x\<bar> \<le> 1/2"
proof -
  have "rat_of_int \<lfloor>x\<rfloor> \<le> x" "x < rat_of_int \<lfloor>x\<rfloor> + 1" by linarith+
  then show ?thesis by (auto simp: rne_def Let_def abs_le_iff)
qed

lemma fl_error:
  assumes "0 < x"
  shows "\<bar>fl x - x\<bar> \<le> x / 2 ^ 53"
proof -
  let ?e = "ilog2 x"
  let ?s = "x * 2 powi (52 - ?e)"
  let ?u = "(2::rat) powi (?e - 52)"
  have u: "0 < ?u" by simp
  have "(2::rat) powi (52 - ?e) * ?u = 2 powi ((52 - ?e) + (?e - 52))"
    by (rule power_int_add [symmetric]) simp
  then have inv: "(2::rat) powi (52 - ?e) * ?u = 1" by simp
  have x: "x = ?s * ?u" using inv by (simp add: mult.assoc)
  have "fl x - x = (rat_of_int (rne ?s) - ?s) * ?u"
    using x by (simp add: fl_pos_eq [OF assms] left_diff_distrib)
  then have "\<bar>fl x - x\<bar> = \<bar>rat_of_int (rne ?s) - ?s\<bar> * ?u"
    using u by (simp add: abs_mult)
  also have "\<dots> \<le> 1/2 * ?u"
    using rne_error [of ?s] u by (intro mult_right_mono) simp_all
  also have "?u = 2 powi ?e / 2 ^ 52"
    using pow2_shift [of 52 ?e] by (simp add: field_simps)
  also have "1/2 * (2 powi ?e / 2 ^ 52) \<le> 1/2 * (x / 2 ^ 52)"
    using ilog2_bounds(1) [OF assms] by (simp add: divide_right_mono)
  finally show ?thesis by simp
qed

lemma fl_pos: "0 < x \<Longrightarrow> 0 < fl x"
  using fl_bounds(1) [of x] zero_less_power_int [of "2::rat" "ilog2 x"] by linarith

lemma percent_error:
  assumes "0 \<le> x"
  shows "\<bar>rat_of_int \<lfloor>fl (fl x * 100) + 1/2\<rfloor> - 100 * x\<bar> \<le> 1/2 + 100 * x / 2 ^ 51"
proof (cases "x = 0")
  case True
  have "\<lfloor>1/2 :: rat\<rfloor> = 0" by (rule floor_unique) simp_all
  with True show ?thesis by (simp add: fl_def)
next
  case False
  with assms have x: "0 < x" by simp
  let ?y = "fl x"
  let ?z = "fl (?y * 100)"
  have y: "0 < ?y" using x by (rule fl_pos)
  have e1: "\<bar>?y - x\<bar> \<le> x / 2 ^ 53" using x by (rule fl_error)
  have e2: "\<bar>?z - ?y * 100\<bar> \<le> ?y * 100 / 2 ^ 53" using y by (intro fl_error) simp
  have "x / 2 ^ 53 \<le> x" using x by (simp add: field_simps)
  with e1 have y2: "?y \<le> 2 * x" by linarith
  have e3: "\<bar>rat_of_int \<lfloor>?z + 1/2\<rfloor> - ?z\<bar> \<le> 1/2" by linarith
  have tri: "\<bar>a - 100 * d\<bar> \<le> \<bar>a - b\<bar> + \<bar>b - c * 100\<bar> + 100 * \<bar>c - d\<bar>" for a b c d :: rat
    by (auto simp: abs_if split: if_splits)
  have "\<bar>rat_of_int \<lfloor>?z + 1/2\<rfloor> - 100 * x\<bar>
      \<le> \<bar>rat_of_int \<lfloor>?z + 1/2\<rfloor> - ?z\<bar> + \<bar>?z - ?y * 100\<bar> + 100 * \<bar>?y - x\<bar>"
    by (rule tri)
  also have "\<dots> \<le> 1/2 + ?y * 100 / 2 ^ 53 + 100 * (x / 2 ^ 53)"
    by (intro add_mono mult_left_mono e1 e2 e3) simp
  also have "\<dots> \<le> 1/2 + (2 * x) * 100 / 2 ^ 53 + 100 * (x / 2 ^ 53)"
    using y2 by (simp add: divide_right_mono)
  also have "\<dots> \<le> 1/2 + 100 * x / 2 ^ 51"
    using x by simp
  finally show ?thesis .
qed

text \<open>
  The double operations do not always give the integer nearest to the exact quotient:
  29 of 200 is 14.5 percent, the program shows 14.
\<close>

lemma pct_29_of_200:
  "Math_round (js_mul (js_div (count 29) (count 200)) (Num 100)) = Num 14"
  by code_simp

text \<open>
  C1 (as amended): on a course with at least one lesson, the percentage is
  \<^verbatim>\<open>Math.round((K / totalLessons) * 100)\<close> computed in double arithmetic, where \<open>K\<close> is the
  number of all keys of \<open>completedLessons\<close>, those that are no lesson of the course
  included (the number of lessons being below \<open>2 ^ 53\<close>, so that the sum of the module
  sizes is exact). The result is an integer that differs from \<open>100 * K / totalLessons\<close> by
  at most a half plus the rounding error of the two double operations.
\<close>

theorem pct_counts_every_key:
  assumes "0 < length (lessonsOf c)" "length (lessonsOf c) < 2 ^ 53"
  shows "pct c p
      = Math_round (js_mul (js_div (count (fcard (fmdom (completedLessons p))))
                              (count (length (lessonsOf c)))) (Num 100))
    \<and> (\<exists>r. pct c p = Num (rat_of_int r)
          \<and> \<bar>rat_of_int r - 100 * rat_of_nat (fcard (fmdom (completedLessons p)))
                               / rat_of_nat (length (lessonsOf c))\<bar>
              \<le> 1/2 + 100 * (rat_of_nat (fcard (fmdom (completedLessons p)))
                               / rat_of_nat (length (lessonsOf c))) / 2 ^ 51)"
proof -
  let ?x = "rat_of_nat (fcard (fmdom (completedLessons p))) / rat_of_nat (length (lessonsOf c))"
  have v: "pct c p = Num (rat_of_int \<lfloor>fl (fl ?x * 100) + 1/2\<rfloor>)"
    using pct_value [OF assms] by (simp add: completedCount_def)
  have "0 \<le> ?x" by simp
  from percent_error [OF this] v assms(1) show ?thesis
    by (simp add: count_def)
qed

theorem pct_counts_every_key_witness:
  "0 < length (lessonsOf SAMPLE_COURSE) \<and> length (lessonsOf SAMPLE_COURSE) < 2 ^ 53
   \<and> pct SAMPLE_COURSE (markComplete ''m0l1'' empty_progress)
       = Math_round (js_mul (js_div (count 1) (count 3)) (Num 100))"
proof -
  have n: "length (lessonsOf SAMPLE_COURSE) = 3"
    by (simp add: lessonsOf_def SAMPLE_COURSE_def)
  have k: "fcard (fmdom (completedLessons (markComplete ''m0l1'' empty_progress))) = 1"
    by (simp add: markComplete_def empty_progress_def fcard_finsert_if fcard_fempty)
  have h1: "0 < length (lessonsOf SAMPLE_COURSE)" by (simp add: n)
  have h2: "length (lessonsOf SAMPLE_COURSE) < 2 ^ 53" by (simp add: n)
  from pct_counts_every_key [OF h1 h2, of "markComplete ''m0l1'' empty_progress"] h1 h2
  show ?thesis
    by (simp add: n k)
qed

text \<open>
  A completed id that is no lesson of the course is counted: with one such id and the three
  lessons of the sample course the program shows 33, where the specification's formula
  gives 0.
\<close>

theorem pct_differs_from_specification:
  "pct SAMPLE_COURSE (markComplete ''m0l1'' empty_progress) = Num 33
   \<and> spec_completionPercent SAMPLE_COURSE (markComplete ''m0l1'' empty_progress) = 0
   \<and> pct SAMPLE_COURSE (markComplete ''m0l1'' empty_progress)
       \<noteq> Num (rat_of_int
           (spec_completionPercent SAMPLE_COURSE (markComplete ''m0l1'' empty_progress)))"
  by code_simp

section \<open>The percentage on a course without lessons\<close>


text \<open>
  A course without lessons does not get as far as the percentage in \<open>App\<close>: the first
  render throws.
\<close>

lemma initialSelection_no_lessons: "lessonsOf c = [] \<Longrightarrow> initialSelection c = Throw"
  by (auto simp: initialSelection_def lessonsOf_def split: list.splits)




section \<open>The percentage and the certificate\<close>

lemma allDone_iff:
  "allDone c p \<longleftrightarrow> (\<forall>l \<in> set (lessonsOf c). truthy (js_get (completedLessons p) (lesson_id l)))"
  by (auto simp: allDone_def lessonsOf_def list_all_iff)

lemma truthy_get_iff:
  assumes "i \<notin> set object_prototype_keys"
    and "\<forall>k v. fmlookup m k = Some v \<longrightarrow> truthy (Own v)"
  shows "truthy (js_get m i) \<longleftrightarrow> i |\<in>| fmdom m"
  using assms by (cases "fmlookup m i") (auto simp: js_get_def fmdom_notI dest: fmdomI)

lemma fl_one: "fl 1 = 1"
  using fl_of_nat [of 1] by simp

lemma fl_hundred: "fl 100 = 100"
  using fl_of_nat [of 100] by simp

lemma percent_bounds:
  assumes "0 \<le> x" "x \<le> 1"
  shows "0 \<le> \<lfloor>fl (fl x * 100) + 1/2\<rfloor>" "\<lfloor>fl (fl x * 100) + 1/2\<rfloor> \<le> 100"
proof -
  have "0 \<le> fl (fl x * 100)" by (rule fl_nonneg)
  then show "0 \<le> \<lfloor>fl (fl x * 100) + 1/2\<rfloor>" by simp
  have "fl x \<le> fl 1" using assms(2) by (rule fl_mono)
  then have "fl x * 100 \<le> 100" by (simp add: fl_one)
  then have "fl (fl x * 100) \<le> fl 100" by (rule fl_mono)
  then have "fl (fl x * 100) + 1/2 < 101" by (simp add: fl_hundred)
  then have "\<lfloor>fl (fl x * 100) + 1/2\<rfloor> < 101" by (simp add: floor_less_iff)
  then show "\<lfloor>fl (fl x * 100) + 1/2\<rfloor> \<le> 100" by simp
qed

lemma percent_full: "\<lfloor>fl (fl 1 * 100) + 1/2\<rfloor> = 100"
proof -
  have "\<lfloor>100 + 1/2 :: rat\<rfloor> = 100" by (rule floor_unique) simp_all
  then show ?thesis by (simp add: fl_one fl_hundred)
qed

lemma percent_not_full:
  assumes "x \<le> 8151 / 8192"
  shows "\<lfloor>fl (fl x * 100) + 1/2\<rfloor> < 100"
proof -
  have "fl (rat_of_int 8151 * 2 powi (- 13)) = rat_of_int 8151 * 2 powi (- 13)"
    by (rule fl_representable) simp_all
  then have a: "fl (8151 / 8192) = 8151 / 8192" by (simp add: power_int_minus)
  have "fl (rat_of_int 203775 * 2 powi (- 11)) = rat_of_int 203775 * 2 powi (- 11)"
    by (rule fl_representable) simp_all
  then have b: "fl (203775 / 2048) = 203775 / 2048" by (simp add: power_int_minus)
  have "fl x \<le> fl (8151 / 8192)" using assms by (rule fl_mono)
  then have "fl x * 100 \<le> 203775 / 2048" by (simp add: a)
  then have "fl (fl x * 100) \<le> fl (203775 / 2048)" by (rule fl_mono)
  then have "fl (fl x * 100) + 1/2 < 100" by (simp add: b)
  then show ?thesis by (simp add: floor_less_iff)
qed

text \<open>From 200 lessons on, rounding alone reaches 100 before the last lesson is done.\<close>

lemma round_199_of_200:
  "Math_round (js_mul (js_div (count 199) (count 200)) (Num 100)) = Num 100"
  by code_simp

text \<open>
  A lesson whose id is the name of a member of \<^verbatim>\<open>Object.prototype\<close> passes the certificate
  check without having been completed.
\<close>

lemma allDone_inherited_member:
  "allDone (SAMPLE_COURSE\<lparr>course_modules :=
       [\<lparr>module_id = ''m1'', module_title = ''Introduction & Mindset'',
         module_lessons =
           [\<lparr>lesson_id = ''toString'', lesson_title = ''What is Dropshipping?'',
             lesson_content = ''Short text overview.'', lesson_video = None,
             lesson_quiz = []\<rparr>]\<rparr>]\<rparr>) empty_progress"
  by (simp add: allDone_def js_get_def object_prototype_keys_def empty_progress_def)

text \<open>
  An entry with a falsy value, as a stored record can hold one, is counted as a key but
  does not pass the certificate check.
\<close>

lemma pct_counts_falsy_entry:
  "pct SAMPLE_COURSE
     \<lparr>completedLessons =
        fmupd ''m2l1'' (JBool False)
          (fmupd ''m1l2'' (JBool True) (fmupd ''m1l1'' (JBool True) fmempty)),
      quizScores = fmempty\<rparr> = Num 100
   \<and> \<not> allDone SAMPLE_COURSE
     \<lparr>completedLessons =
        fmupd ''m2l1'' (JBool False)
          (fmupd ''m1l2'' (JBool True) (fmupd ''m1l1'' (JBool True) fmempty)),
      quizScores = fmempty\<rparr>"
  by code_simp

text \<open>
  C2 (as amended): take a course with at least one lesson whose lesson ids are distinct
  and are no member names of \<^verbatim>\<open>Object.prototype\<close>, and a progress record whose completed
  ids are all lessons of the course, each with a truthy value. Then the percentage lies
  between 0 and 100; if the certificate check \<open>allDone\<close> holds, the percentage is 100; and
  on a course of fewer than 200 lessons a percentage of 100 implies \<open>allDone\<close>.
\<close>

theorem pct_and_certificate:
  assumes "distinct (map lesson_id (lessonsOf c))"
    and "\<forall>l \<in> set (lessonsOf c). lesson_id l \<notin> set object_prototype_keys"
    and "0 < length (lessonsOf c)" "length (lessonsOf c) < 2 ^ 53"
    and "fset (fmdom (completedLessons p)) \<subseteq> lesson_id ` set (lessonsOf c)"
    and "\<forall>k v. fmlookup (completedLessons p) k = Some v \<longrightarrow> truthy (Own v)"
  shows "percent_in_range (pct c p)
     \<and> (allDone c p \<longrightarrow> pct c p = Num 100)
     \<and> (length (lessonsOf c) < 200 \<longrightarrow> pct c p = Num 100 \<longrightarrow> allDone c p)"
proof -
  let ?ids = "lesson_id ` set (lessonsOf c)"
  let ?K = "fset (fmdom (completedLessons p))"
  let ?n = "length (lessonsOf c)"
  let ?k = "completedCount p"
  let ?x = "rat_of_nat ?k / rat_of_nat ?n"
  have v: "pct c p = Num (rat_of_int \<lfloor>fl (fl ?x * 100) + 1/2\<rfloor>)"
    using assms(3,4) by (rule pct_value)
  have n: "card ?ids = ?n" using distinct_card [OF assms(1)] by simp
  have k: "?k = card ?K" by (simp add: completedCount_def fcard.rep_eq)
  have kn: "?k \<le> ?n" using card_mono [of ?ids ?K] assms(5) by (simp add: k n)
  have elig: "allDone c p \<longleftrightarrow> ?ids \<subseteq> ?K"
    using assms(2,6) by (auto simp: allDone_iff truthy_get_iff)
  have x01: "0 \<le> ?x" "?x \<le> 1" using kn assms(3) by simp_all
  have range: "percent_in_range (pct c p)"
    using percent_bounds [OF x01] by (simp add: v percent_in_range_def)
  have full: "pct c p = Num 100" if "allDone c p"
  proof -
    from that elig assms(5) have "?K = ?ids" by auto
    then have "?k = ?n" by (simp add: k n)
    then have x1: "?x = 1" using assms(3) by simp
    show ?thesis unfolding v x1 percent_full by simp
  qed
  have conv: "allDone c p" if small: "?n < 200" and hundred: "pct c p = Num 100"
  proof (rule ccontr)
    assume "\<not> allDone c p"
    with elig assms(5) have "?K \<subset> ?ids" by auto
    then have "card ?K < card ?ids" by (intro psubset_card_mono) simp_all
    then have lt: "?k < ?n" by (simp add: k n)
    with small have "8192 * ?k \<le> 8151 * ?n" by simp
    then have "rat_of_nat (8192 * ?k) \<le> rat_of_nat (8151 * ?n)" by (simp only: of_nat_le_iff)
    then have x: "?x \<le> 8151 / 8192" using assms(3) by (simp add: field_simps)
    define r where "r = \<lfloor>fl (fl ?x * 100) + 1/2\<rfloor>"
    have "r < 100" unfolding r_def using x by (rule percent_not_full)
    moreover have "pct c p = Num (rat_of_int r)" unfolding r_def by (rule v)
    ultimately show False using hundred by simp
  qed
  from range full conv show ?thesis by blast
qed

theorem pct_and_certificate_witness:
  "distinct (map lesson_id (lessonsOf SAMPLE_COURSE))
   \<and> set (map lesson_id (lessonsOf SAMPLE_COURSE)) \<inter> set object_prototype_keys = {}
   \<and> 0 < length (lessonsOf SAMPLE_COURSE) \<and> length (lessonsOf SAMPLE_COURSE) < 200
   \<and> fset (fmdom (completedLessons
         (markComplete ''m2l1'' (markComplete ''m1l2'' (markComplete ''m1l1'' empty_progress)))))
       \<subseteq> lesson_id ` set (lessonsOf SAMPLE_COURSE)
   \<and> allDone SAMPLE_COURSE
        (markComplete ''m2l1'' (markComplete ''m1l2'' (markComplete ''m1l1'' empty_progress)))
   \<and> pct SAMPLE_COURSE
        (markComplete ''m2l1'' (markComplete ''m1l2'' (markComplete ''m1l1'' empty_progress)))
       = Num 100"
proof -
  let ?p = "markComplete ''m2l1'' (markComplete ''m1l2'' (markComplete ''m1l1'' empty_progress))"
  have ls: "map lesson_id (lessonsOf SAMPLE_COURSE) = [''m1l1'', ''m1l2'', ''m2l1'']"
    by (simp add: lessonsOf_def SAMPLE_COURSE_def)
  have n: "length (lessonsOf SAMPLE_COURSE) = 3"
    by (simp add: lessonsOf_def SAMPLE_COURSE_def)
  have ids: "lesson_id ` set (lessonsOf SAMPLE_COURSE) = {''m1l1'', ''m1l2'', ''m2l1''}"
    using arg_cong [OF ls, of set] by simp
  have h1: "distinct (map lesson_id (lessonsOf SAMPLE_COURSE))" by (simp add: ls)
  have h2: "\<forall>l \<in> set (lessonsOf SAMPLE_COURSE). lesson_id l \<notin> set object_prototype_keys"
    by (simp add: lessonsOf_def SAMPLE_COURSE_def object_prototype_keys_def)
  have h3: "0 < length (lessonsOf SAMPLE_COURSE)" by (simp add: n)
  have h4: "length (lessonsOf SAMPLE_COURSE) < 2 ^ 53" by (simp add: n)
  have h5: "fset (fmdom (completedLessons ?p)) \<subseteq> lesson_id ` set (lessonsOf SAMPLE_COURSE)"
    by (simp add: ids markComplete_def empty_progress_def)
  have h6: "\<forall>k v. fmlookup (completedLessons ?p) k = Some v \<longrightarrow> truthy (Own v)"
    by (auto simp: markComplete_def empty_progress_def split: if_splits)
  have d: "allDone SAMPLE_COURSE ?p"
    by (simp add: allDone_def SAMPLE_COURSE_def markComplete_def js_get_def)
  have h2': "set (map lesson_id (lessonsOf SAMPLE_COURSE)) \<inter> set object_prototype_keys = {}"
    by (simp add: ls object_prototype_keys_def)
  from pct_and_certificate [OF h1 h2 h3 h4 h5 h6] d h1 h2' h3 h5 show ?thesis
    by (simp add: n)
qed

text \<open>
  With the three lessons of the sample course completed and one more id in the record,
  the percentage is 133.
\<close>

theorem pct_above_100:
  "totalLessons SAMPLE_COURSE = Num 3
   \<and> pct SAMPLE_COURSE
        (markComplete ''m0l1''
          (markComplete ''m2l1'' (markComplete ''m1l2'' (markComplete ''m1l1'' empty_progress))))
       = Num 133
   \<and> \<not> percent_in_range (pct SAMPLE_COURSE
        (markComplete ''m0l1''
          (markComplete ''m2l1'' (markComplete ''m1l2'' (markComplete ''m1l1'' empty_progress)))))"
  by code_simp

section \<open>The scenarios of the specification\<close>

text \<open>
  Three lessons in two modules: with two of them completed the percentage is 67, with the
  third it is 100 and the certificate check holds.
\<close>

lemma scenario_two_of_three:
  "pct SAMPLE_COURSE (markComplete ''m1l2'' (markComplete ''m1l1'' empty_progress)) = Num 67
   \<and> \<not> allDone SAMPLE_COURSE (markComplete ''m1l2'' (markComplete ''m1l1'' empty_progress))"
  by code_simp

lemma scenario_three_of_three:
  "pct SAMPLE_COURSE
     (markComplete ''m2l1'' (markComplete ''m1l2'' (markComplete ''m1l1'' empty_progress)))
     = Num 100
   \<and> allDone SAMPLE_COURSE
     (markComplete ''m2l1'' (markComplete ''m1l2'' (markComplete ''m1l1'' empty_progress)))"
  by code_simp

text \<open>
  A quiz of two questions with only the first answered, and answered right: the score is
  1 of 2, which meets the bound of one half, so the lesson is completed.
\<close>

lemma scenario_half_of_quiz:
  "grade [\<lparr>question_q = ''first'', question_options = [''no'', ''yes''], question_a = 1\<rparr>,
          \<lparr>question_q = ''second'', question_options = [''yes'', ''no''], question_a = 0\<rparr>]
     (fmupd 0 1 fmempty) = (1, 2)
   \<and> fmlookup (completedLessons (handleQuizSubmit ''m1l1'' 1 2 empty_progress)) ''m1l1''
       = Some (JBool True)"
  by code_simp

end
